theory Spec2Isabelle
  imports Complex_Main "HOL-Library.Multiset"
begin

section \<open>RUM-SpeedIndex: data model\<close>

text \<open>
  The program is the single JavaScript function \<open>RUMSpeedIndex\<close> of
  \<open>src/rum-speedindex.js\<close>. JavaScript numbers are modelled as exact reals (no rounding,
  no NaN, no infinities); a property that may be \<open>undefined\<close> is a \<open>real option\<close>, and
  \<open>None\<close> stands for \<open>undefined\<close>. Strings are \<open>string\<close>; the empty string is the only
  falsy one.
\<close>

definition truthy :: "real option \<Rightarrow> bool" where
  \<comment> \<open>JavaScript truthiness of a value that is \<open>undefined\<close> or a number\<close>
  "truthy v = (case v of None \<Rightarrow> False | Some x \<Rightarrow> x \<noteq> 0)"

definition or_else :: "real option \<Rightarrow> real \<Rightarrow> real" where
  \<comment> \<open>\<open>a || b\<close> for \<open>a\<close> undefined or a number and \<open>b\<close> a number\<close>
  "or_else a b = (case a of None \<Rightarrow> b | Some x \<Rightarrow> if x \<noteq> 0 then x else b)"

text \<open>The result of \<open>el.getBoundingClientRect()\<close>.\<close>

record bounding_rect =
  el_top :: real
  el_left :: real
  el_bottom :: real
  el_right :: real

text \<open>
  A DOM element, with the properties the program reads: of the elements of the document
  (\<open>tagName\<close>, \<open>src\<close>, the bounding rectangle, the computed \<open>background-image\<close>) and of the
  children of the head (\<open>tagName\<close>, \<open>src\<close>, \<open>async\<close>, \<open>rel\<close>, \<open>href\<close>). A missing string
  property is the empty string (both are falsy); \<open>boundingRect\<close> is \<open>None\<close> for an element
  without \<open>getBoundingClientRect\<close>.
\<close>

record element =
  tagName :: string
  src :: string
  async :: bool
  rel :: string
  href :: string
  boundingRect :: "bounding_rect option"
  backgroundImage :: string

text \<open>An entry of \<open>performance.getEntriesByType("resource")\<close>.\<close>

record resource =
  name :: string
  responseEnd :: real
  initiatorType :: string

record timing =
  navigationStart :: real
  responseStart :: real
  msFirstPaint :: "real option"

text \<open>
  \<open>window.performance\<close>: \<open>resourceEntries\<close> is \<open>None\<close> in a browser without Resource Timing,
  where the call of \<open>getEntriesByType\<close> throws.
\<close>

record performance =
  timing :: timing
  resourceEntries :: "resource list option"

text \<open>The result of \<open>window.chrome.loadTimes()\<close>.\<close>

record loadTimes =
  firstPaintTime :: "real option"
  startLoadTime :: "real option"
  requestTime :: "real option"

text \<open>
  The snapshot of the page the function reads: \<open>elements\<close> is
  \<open>document.getElementsByTagName('*')\<close>, \<open>headElements\<close> the children of
  \<open>document.getElementsByTagName('head')[0]\<close> (\<open>None\<close> in a document without a head
  element, where reading \<open>children\<close> throws), \<open>clientWidth\<close> and \<open>clientHeight\<close> those
  of \<open>document.documentElement\<close>, \<open>chrome\<close> is \<open>None\<close> when \<open>window.chrome\<close> or its
  \<open>loadTimes\<close> is missing, \<open>performance\<close> is \<open>None\<close> when \<open>window.performance\<close> or its
  \<open>timing\<close> is missing.
\<close>

record window =
  innerWidth :: "real option"
  innerHeight :: "real option"
  clientWidth :: real
  clientHeight :: real
  performance :: "performance option"
  chrome :: "loadTimes option"
  elements :: "element list"
  headElements :: "element list option"

text \<open>
  The object \<open>intersect\<close> of \<open>GetElementViewportRect\<close>, an entry of \<open>rects\<close> (its \<open>tm\<close> is
  \<open>None\<close> until \<open>GetRectTimings\<close> sets it) and an entry of \<open>progress\<close>.
\<close>

record viewport_rect =
  vr_top :: real
  vr_left :: real
  vr_bottom :: real
  vr_right :: real
  vr_area :: real

record region =
  url :: string
  area :: real
  rect :: viewport_rect
  tm :: "real option"

record progress_point =
  ptm :: real
  parea :: real
  progress :: real

text \<open>
  The regular expression \<open>re\<close> of \<open>GetRects\<close> is global, so \<open>re.exec\<close> reads and writes
  its \<open>lastIndex\<close>. The matcher belongs to the JavaScript runtime and is a parameter here:
  from \<open>lastIndex\<close> and the string it gives the match array (\<open>None\<close> for \<open>null\<close>) and the
  new \<open>lastIndex\<close>.
\<close>

type_synonym regexp = "nat \<Rightarrow> string \<Rightarrow> string list option \<times> nat"

section \<open>Support routines\<close>

definition viewportWidth :: "window \<Rightarrow> real" where
  "viewportWidth w = or_else (innerWidth w) (clientWidth w)"

definition viewportHeight :: "window \<Rightarrow> real" where
  "viewportHeight w = or_else (innerHeight w) (clientHeight w)"

definition GetElementViewportRect :: "window \<Rightarrow> element \<Rightarrow> viewport_rect option" where
  "GetElementViewportRect w el =
     (case boundingRect el of
        None \<Rightarrow> None
      | Some elRect \<Rightarrow>
          (let t = max (el_top elRect) 0;
               l = max (el_left elRect) 0;
               b = min (el_bottom elRect) (viewportHeight w);
               r = min (el_right elRect) (viewportWidth w)
           in if b \<le> t \<or> r \<le> l then None
              else Some \<lparr>vr_top = t, vr_left = l, vr_bottom = b, vr_right = r,
                         vr_area = (b - t) * (r - l)\<rparr>))"

definition CheckElement :: "window \<Rightarrow> region list \<Rightarrow> element \<Rightarrow> string \<Rightarrow> region list" where
  "CheckElement w rects el u =
     (if u \<noteq> [] then
        (case GetElementViewportRect w el of
           Some r \<Rightarrow> rects @ [\<lparr>url = u, area = vr_area r, rect = r, tm = None\<rparr>]
         | None \<Rightarrow> rects)
      else rects)"

text \<open>One turn of the loop of \<open>GetRects\<close>, on the state \<open>(lastIndex of re, rects)\<close>.\<close>

definition GetRects_step :: "regexp \<Rightarrow> window \<Rightarrow> element \<Rightarrow> nat \<times> region list \<Rightarrow> nat \<times> region list" where
  "GetRects_step re w el s =
     (let lastIndex = fst s;
          rects1 = (if tagName el = ''IMG'' then CheckElement w (snd s) el (src el) else snd s)
      in if backgroundImage el \<noteq> [] then
           (case re lastIndex (backgroundImage el) of
              (Some matches, lastIndex') \<Rightarrow>
                (lastIndex', if length matches > 1 then CheckElement w rects1 el (matches ! 1) else rects1)
            | (None, lastIndex') \<Rightarrow> (lastIndex', rects1))
         else (lastIndex, rects1))"

definition GetRects :: "regexp \<Rightarrow> window \<Rightarrow> region list" where
  "GetRects re w = snd (fold (GetRects_step re w) (elements w) (0, []))"

text \<open>
  The object \<open>timings\<close>, as a map from names to times; a later record of the same name
  overwrites an earlier one. (The names and the URLs of regions are absolute URLs, so
  none of them is the name of an inherited property of the object.)
\<close>

definition timings_of :: "resource list \<Rightarrow> (string \<rightharpoonup> real)" where
  "timings_of requests = fold (\<lambda>r t. t(name r \<mapsto> responseEnd r)) requests Map.empty"

definition GetRectTimings :: "resource list \<Rightarrow> region list \<Rightarrow> region list" where
  "GetRectTimings requests rects =
     map (\<lambda>r. r\<lparr>tm := Some (case timings_of requests (url r) of Some v \<Rightarrow> v | None \<Rightarrow> 0)\<rparr>) rects"

section \<open>First paint\<close>

definition nativeFirstPaint :: "timing \<Rightarrow> real option" where
  \<comment> \<open>\<open>firstPaint\<close> after the \<open>msFirstPaint\<close> branch\<close>
  "nativeFirstPaint t =
     (case msFirstPaint t of
        None \<Rightarrow> None
      | Some v \<Rightarrow> if v \<noteq> 0 then Some (v - navigationStart t) else None)"

definition chromeFirstPaint :: "loadTimes option \<Rightarrow> real option \<Rightarrow> real option" where
  \<comment> \<open>\<open>firstPaint\<close> after the \<open>chrome.loadTimes\<close> branch, from its value before\<close>
  "chromeFirstPaint ch firstPaint =
     (case ch of
        None \<Rightarrow> firstPaint
      | Some chromeTimes \<Rightarrow>
          (case firstPaintTime chromeTimes of
             None \<Rightarrow> firstPaint
           | Some fpt \<Rightarrow>
               if fpt > 0 then
                 (let startTime = (if truthy (requestTime chromeTimes) then requestTime chromeTimes
                                   else startLoadTime chromeTimes)
                  in case startTime of
                       None \<Rightarrow> firstPaint
                     | Some st \<Rightarrow> if fpt \<ge> st then Some ((fpt - st) * 1000) else firstPaint)
               else firstPaint))"

definition headURLs_step :: "element \<Rightarrow> string list \<Rightarrow> string list" where
  "headURLs_step el urls =
     (let urls1 = (if tagName el = ''SCRIPT'' \<and> src el \<noteq> [] \<and> \<not> async el then urls @ [src el] else urls)
      in if tagName el = ''LINK'' \<and> rel el = ''stylesheet'' \<and> href el \<noteq> [] then urls1 @ [href el]
         else urls1)"

definition headURLs_of :: "element list \<Rightarrow> string list" where
  \<comment> \<open>the keys of \<open>headURLs\<close>\<close>
  "headURLs_of els = fold headURLs_step els []"

text \<open>The loop over \<open>requests\<close> in the fallback, on the state \<open>(firstPaint, doneCritical)\<close>.\<close>

fun critical_scan :: "string list \<Rightarrow> resource list \<Rightarrow> real \<times> bool \<Rightarrow> real \<times> bool" where
  "critical_scan hu [] s = s"
| "critical_scan hu (r # rs) (fp, doneCritical) =
     (if \<not> doneCritical \<and> name r \<in> set hu \<and>
         (initiatorType r = ''script'' \<or> initiatorType r = ''link'')
      then critical_scan hu rs (if responseEnd r > fp then responseEnd r else fp, doneCritical)
      else critical_scan hu rs (fp, True))"

text \<open>
  The fallback. It reads \<open>document.getElementsByTagName('head')[0].children\<close>: in a
  document without a head element that is a property of \<open>undefined\<close>, and a
  \<open>TypeError\<close> is thrown.
\<close>

datatype js_error = TypeError

definition headFallback :: "timing \<Rightarrow> element list option \<Rightarrow> resource list \<Rightarrow> js_error + real" where
  "headFallback t hd_opt requests =
     (case hd_opt of
        None \<Rightarrow> Inl TypeError
      | Some hd_els \<Rightarrow>
          Inr (fst (critical_scan (headURLs_of hd_els) requests
                      (responseStart t - navigationStart t, False))))"

text \<open>
  \<open>GetFirstPaint\<close>: it throws (\<open>Inl\<close>) or returns with a number assigned to
  \<open>firstPaint\<close> (\<open>Inr\<close>), since the fallback starts from \<open>responseStart - navStart\<close>.
  (Inside the fallback the test \<open>firstPaint == undefined\<close> is therefore never true.)
  The head is read only in the fallback.
\<close>

definition GetFirstPaint :: "timing \<Rightarrow> loadTimes option \<Rightarrow> element list option \<Rightarrow> resource list \<Rightarrow> js_error + real" where
  "GetFirstPaint t ch hd_opt requests =
     (case chromeFirstPaint ch (nativeFirstPaint t) of
        Some fp \<Rightarrow> Inr fp
      | None \<Rightarrow> headFallback t hd_opt requests)"

section \<open>Visual progress and Speed Index\<close>

text \<open>
  \<open>paints\<close> is an object keyed by the paint time; it is an association list here, in
  insertion order, with the number as the key (the property name is the number printed,
  and \<open>a.tm - b.tm\<close> and \<open>progress[i]['tm'] - lastTime\<close> read it back as that number).
  \<open>add_paint\<close> is \<open>if (paints[tm] === undefined) paints[tm] = 0; paints[tm] += a\<close>.
  \<open>progress.sort\<close> is \<open>sort_key fst\<close>.
\<close>

fun add_paint :: "real \<Rightarrow> real \<Rightarrow> (real \<times> real) list \<Rightarrow> (real \<times> real) list" where
  "add_paint k a [] = [(k, 0 + a)]"
| "add_paint k a ((k', v) # ps) =
     (if k' = k then (k', v + a) # ps else (k', v) # add_paint k a ps)"

definition paint_time :: "real \<Rightarrow> region \<Rightarrow> real" where
  "paint_time firstPaint r =
     (case tm r of
        None \<Rightarrow> firstPaint
      | Some t \<Rightarrow> if t \<noteq> 0 \<and> t > firstPaint then t else firstPaint)"

fun rects_loop :: "real \<Rightarrow> region list \<Rightarrow> (real \<times> real) list \<times> real \<Rightarrow> (real \<times> real) list \<times> real" where
  "rects_loop firstPaint [] s = s"
| "rects_loop firstPaint (r # rs) (paints, total_area) =
     rects_loop firstPaint rs (add_paint (paint_time firstPaint r) (area r) paints, total_area + area r)"

definition pageBackgroundWeight :: real where
  "pageBackgroundWeight = 1 / 10"

definition viewport_pixels :: "window \<Rightarrow> real" where
  "viewport_pixels w =
     max (clientWidth w) (or_else (innerWidth w) 0) * max (clientHeight w) (or_else (innerHeight w) 0)"

definition add_background :: "window \<Rightarrow> real \<Rightarrow> (real \<times> real) list \<times> real \<Rightarrow> (real \<times> real) list \<times> real" where
  "add_background w firstPaint s =
     (if viewport_pixels w > 0 then
        (let pixels = max (viewport_pixels w - snd s) 0 * pageBackgroundWeight
         in (add_paint firstPaint pixels (fst s), snd s + pixels))
      else s)"

definition paint_buckets :: "window \<Rightarrow> real \<Rightarrow> region list \<Rightarrow> (real \<times> real) list \<times> real" where
  \<comment> \<open>\<open>(paints, total)\<close> when the loop over \<open>rects\<close> and the background are done, before the visual progress is calculated\<close>
  "paint_buckets w firstPaint rects = add_background w firstPaint (rects_loop firstPaint rects ([(0, 0)], 0))"

fun accumulate :: "real \<Rightarrow> real \<Rightarrow> (real \<times> real) list \<Rightarrow> progress_point list" where
  "accumulate total_area accumulated [] = []"
| "accumulate total_area accumulated ((t, a) # ps) =
     \<lparr>ptm = t, parea = a, progress = (accumulated + a) / total_area\<rparr> #
     accumulate total_area (accumulated + a) ps"

definition CalculateVisualProgress :: "window \<Rightarrow> real \<Rightarrow> region list \<Rightarrow> progress_point list" where
  "CalculateVisualProgress w firstPaint rects =
     (let (paints, total_area) = paint_buckets w firstPaint rects
      in if total_area \<noteq> 0 then accumulate total_area 0 (sort_key fst paints) else [])"

text \<open>The loop of \<open>CalculateSpeedIndex\<close>, on the state \<open>(SpeedIndex, lastTime, lastProgress)\<close>.\<close>

fun integrate :: "progress_point list \<Rightarrow> real \<times> real \<times> real \<Rightarrow> real \<times> real \<times> real" where
  "integrate [] s = s"
| "integrate (p # ps) (speedIndex, lastTime, lastProgress) =
     (let elapsed = ptm p - lastTime
      in integrate ps
           (if elapsed > 0 \<and> lastProgress < 1 then speedIndex + (1 - lastProgress) * elapsed
            else speedIndex,
            ptm p, progress p))"

definition CalculateSpeedIndex :: "real \<Rightarrow> progress_point list \<Rightarrow> real" where
  "CalculateSpeedIndex firstPaint prog =
     (if prog \<noteq> [] then fst (integrate prog (0, 0, 0)) else firstPaint)"

section \<open>Main flow\<close>

text \<open>
  The body of the \<open>try\<close>. Three places throw: \<open>window.performance.timing\<close> when
  \<open>window.performance\<close> is missing, \<open>getEntriesByType\<close> when Resource Timing is missing,
  and the fallback of \<open>GetFirstPaint\<close> in a document without a head element. The
  \<open>catch\<close> swallows the exception, and \<open>SpeedIndex\<close> is still \<open>undefined\<close> (\<open>None\<close>),
  since it is assigned in \<open>CalculateSpeedIndex\<close> only.
\<close>

definition RUMSpeedIndex :: "regexp \<Rightarrow> window \<Rightarrow> real option" where
  "RUMSpeedIndex re w =
     (case performance w of
        None \<Rightarrow> None
      | Some perf \<Rightarrow>
          (case resourceEntries perf of
             None \<Rightarrow> None
           | Some requests \<Rightarrow>
               (let rects = GetRectTimings requests (GetRects re w)
                in case GetFirstPaint (timing perf) (chrome w) (headElements w) requests of
                     Inl e \<Rightarrow> None
                   | Inr firstPaint \<Rightarrow>
                       (let prog = CalculateVisualProgress w firstPaint rects
                        in Some (CalculateSpeedIndex firstPaint prog)))))"

section \<open>The Region invariant and sample inputs\<close>

text \<open>
  The invariant of a Region for the window \<open>w\<close>: positive area, the area of its
  rectangle, and a rectangle inside \<open>[0, viewportWidth] \<times> [0, viewportHeight]\<close>.
\<close>

definition region_ok :: "window \<Rightarrow> region \<Rightarrow> bool" where
  "region_ok w r \<longleftrightarrow>
     0 < area r \<and> area r = vr_area (rect r) \<and>
     0 \<le> vr_top (rect r) \<and> vr_top (rect r) < vr_bottom (rect r) \<and>
     vr_bottom (rect r) \<le> viewportHeight w \<and>
     0 \<le> vr_left (rect r) \<and> vr_left (rect r) < vr_right (rect r) \<and>
     vr_right (rect r) \<le> viewportWidth w"

definition no_match :: regexp where
  \<comment> \<open>a matcher that never matches\<close>
  "no_match lastIndex s = (None, 0)"

definition img_visible :: element where
  \<comment> \<open>an image that sticks out of the viewport of \<open>sample_window\<close> at the top left\<close>
  "img_visible =
     \<lparr>tagName = ''IMG'', src = ''http://a.example/i.png'', async = False, rel = [], href = [],
      boundingRect = Some \<lparr>el_top = - 5, el_left = - 10, el_bottom = 10, el_right = 20\<rparr>,
      backgroundImage = ''none''\<rparr>"

definition img_offscreen :: element where
  \<comment> \<open>an image below the viewport of \<open>sample_window\<close>\<close>
  "img_offscreen =
     \<lparr>tagName = ''IMG'', src = ''http://a.example/j.png'', async = False, rel = [], href = [],
      boundingRect = Some \<lparr>el_top = 700, el_left = 0, el_bottom = 800, el_right = 20\<rparr>,
      backgroundImage = ''none''\<rparr>"

definition sample_window :: window where
  "sample_window =
     \<lparr>innerWidth = Some 800, innerHeight = Some 600, clientWidth = 800, clientHeight = 600,
      performance = Some \<lparr>timing = \<lparr>navigationStart = 1000, responseStart = 1200, msFirstPaint = None\<rparr>,
                          resourceEntries = Some []\<rparr>,
      chrome = None,
      elements = [img_visible, img_offscreen],
      headElements = Some []\<rparr>"

definition covered_window :: window where
  \<comment> \<open>a viewport of 10 by 10 pixels, without timing interfaces\<close>
  "covered_window =
     \<lparr>innerWidth = Some 10, innerHeight = Some 10, clientWidth = 10, clientHeight = 10,
      performance = None, chrome = None, elements = [], headElements = Some []\<rparr>"

definition blank_window :: window where
  \<comment> \<open>a window without pixels\<close>
  "blank_window =
     \<lparr>innerWidth = None, innerHeight = None, clientWidth = 0, clientHeight = 0,
      performance = None, chrome = None, elements = [], headElements = Some []\<rparr>"

definition region_at :: "real \<Rightarrow> region" where
  \<comment> \<open>a region of area 50 whose resource ended at \<open>t\<close>\<close>
  "region_at t =
     \<lparr>url = ''http://a.example/i.png'', area = 50,
      rect = \<lparr>vr_top = 0, vr_left = 0, vr_bottom = 5, vr_right = 10, vr_area = 50\<rparr>, tm = Some t\<rparr>"

section \<open>RegionCollector\<close>

lemma GetElementViewportRect_Some:
  assumes "GetElementViewportRect w el = Some r"
  shows "0 \<le> vr_top r \<and> vr_top r < vr_bottom r \<and> vr_bottom r \<le> viewportHeight w \<and>
         0 \<le> vr_left r \<and> vr_left r < vr_right r \<and> vr_right r \<le> viewportWidth w \<and>
         vr_area r = (vr_bottom r - vr_top r) * (vr_right r - vr_left r) \<and> 0 < vr_area r"
  using assms
  by (auto simp: GetElementViewportRect_def Let_def not_le split: option.splits if_splits)

lemma GetElementViewportRect_None:
  assumes "boundingRect el = Some elRect"
    and "min (el_bottom elRect) (viewportHeight w) - max (el_top elRect) 0 \<le> 0 \<or>
         min (el_right elRect) (viewportWidth w) - max (el_left elRect) 0 \<le> 0"
  shows "GetElementViewportRect w el = None"
  using assms by (auto simp: GetElementViewportRect_def Let_def)

lemma CheckElement_ok:
  assumes "\<forall>r \<in> set rects. region_ok w r"
  shows "\<forall>r \<in> set (CheckElement w rects el u). region_ok w r"
  using assms GetElementViewportRect_Some[of w el]
  by (auto simp: CheckElement_def region_ok_def split: option.splits)

lemma GetRects_step_ok:
  assumes "\<forall>r \<in> set (snd s). region_ok w r"
  shows "\<forall>r \<in> set (snd (GetRects_step re w el s)). region_ok w r"
proof -
  let ?r1 = "if tagName el = ''IMG'' then CheckElement w (snd s) el (src el) else snd s"
  have r1: "\<forall>r \<in> set ?r1. region_ok w r"
    using assms CheckElement_ok[OF assms] by simp
  have r2: "\<forall>r \<in> set (CheckElement w ?r1 el u). region_ok w r" for u
    using CheckElement_ok[OF r1] by blast
  show ?thesis
    unfolding GetRects_step_def Let_def
    using r1 r2 by (simp split: option.splits prod.splits)
qed

lemma GetRects_fold_ok:
  "\<forall>r \<in> set (snd s). region_ok w r \<Longrightarrow>
   \<forall>r \<in> set (snd (fold (GetRects_step re w) els s)). region_ok w r"
proof (induction els arbitrary: s)
  case Nil
  then show ?case by simp
next
  case (Cons el els)
  show ?case using Cons.IH[OF GetRects_step_ok[OF Cons.prems]] by simp
qed

lemma GetRects_ok: "r \<in> set (GetRects re w) \<Longrightarrow> region_ok w r"
  using GetRects_fold_ok[of "(0, [])" w re "elements w"] by (simp add: GetRects_def)

text \<open>
  Claim C9. Every Region that \<open>GetRects\<close> emits has a positive area and a rectangle
  inside the viewport \<open>[0, viewportWidth] \<times> [0, viewportHeight]\<close>; an element whose
  clipped rectangle has a width or a height that is zero or negative gives no rectangle,
  and \<open>CheckElement\<close> leaves \<open>rects\<close> as it was.
\<close>

theorem RegionCollector_invariant:
  "(\<forall>r \<in> set (GetRects re w). region_ok w r) \<and>
   (\<forall>(el::element) elRect. boundingRect el = Some elRect \<and>
        (min (el_bottom elRect) (viewportHeight w) - max (el_top elRect) 0 \<le> 0 \<or>
         min (el_right elRect) (viewportWidth w) - max (el_left elRect) 0 \<le> 0) \<longrightarrow>
        GetElementViewportRect w el = None \<and> (\<forall>rects u. CheckElement w rects el u = rects))"
proof (intro conjI allI impI ballI)
  fix r assume "r \<in> set (GetRects re w)"
  then show "region_ok w r" by (rule GetRects_ok)
next
  fix el :: element and elRect
  assume h: "boundingRect el = Some elRect \<and>
        (min (el_bottom elRect) (viewportHeight w) - max (el_top elRect) 0 \<le> 0 \<or>
         min (el_right elRect) (viewportWidth w) - max (el_left elRect) 0 \<le> 0)"
  then show "GetElementViewportRect w el = None"
    using GetElementViewportRect_None[of el elRect w] by blast
  then show "CheckElement w rects el u = rects" for rects u
    by (simp add: CheckElement_def)
qed

theorem RegionCollector_invariant_witness:
  "GetRects no_match sample_window =
     [\<lparr>url = ''http://a.example/i.png'', area = 200,
       rect = \<lparr>vr_top = 0, vr_left = 0, vr_bottom = 10, vr_right = 20, vr_area = 200\<rparr>, tm = None\<rparr>] \<and>
   region_ok sample_window
     \<lparr>url = ''http://a.example/i.png'', area = 200,
      rect = \<lparr>vr_top = 0, vr_left = 0, vr_bottom = 10, vr_right = 20, vr_area = 200\<rparr>, tm = None\<rparr> \<and>
   boundingRect img_offscreen = Some \<lparr>el_top = 700, el_left = 0, el_bottom = 800, el_right = 20\<rparr> \<and>
   min 800 (viewportHeight sample_window) - max 700 0 \<le> 0 \<and>
   GetElementViewportRect sample_window img_offscreen = None \<and>
   CheckElement sample_window [] img_offscreen (src img_offscreen) = []"
proof -
  have g: "GetRects no_match sample_window =
     [\<lparr>url = ''http://a.example/i.png'', area = 200,
       rect = \<lparr>vr_top = 0, vr_left = 0, vr_bottom = 10, vr_right = 20, vr_area = 200\<rparr>, tm = None\<rparr>]"
    by (simp add: GetRects_def GetRects_step_def CheckElement_def GetElementViewportRect_def
        sample_window_def img_visible_def img_offscreen_def no_match_def viewportHeight_def
        viewportWidth_def or_else_def)
  have b: "boundingRect img_offscreen = Some \<lparr>el_top = 700, el_left = 0, el_bottom = 800, el_right = 20\<rparr>"
    by (simp add: img_offscreen_def)
  have vh: "viewportHeight sample_window = 600"
    by (simp add: viewportHeight_def sample_window_def or_else_def)
  have m: "min 800 (viewportHeight sample_window) - max 700 0 \<le> 0"
    by (simp add: vh)
  have inv: "\<forall>r \<in> set (GetRects no_match sample_window). region_ok sample_window r"
    and off: "\<forall>(el::element) elRect. boundingRect el = Some elRect \<and>
        (min (el_bottom elRect) (viewportHeight sample_window) - max (el_top elRect) 0 \<le> 0 \<or>
         min (el_right elRect) (viewportWidth sample_window) - max (el_left elRect) 0 \<le> 0) \<longrightarrow>
        GetElementViewportRect sample_window el = None \<and>
        (\<forall>rects u. CheckElement sample_window rects el u = rects)"
    using RegionCollector_invariant[of no_match sample_window] by blast+
  have r: "region_ok sample_window
     \<lparr>url = ''http://a.example/i.png'', area = 200,
      rect = \<lparr>vr_top = 0, vr_left = 0, vr_bottom = 10, vr_right = 20, vr_area = 200\<rparr>, tm = None\<rparr>"
    using inv unfolding g by simp
  have o: "GetElementViewportRect sample_window img_offscreen = None \<and>
        (\<forall>rects u. CheckElement sample_window rects img_offscreen u = rects)"
    using off[rule_format, of img_offscreen "\<lparr>el_top = 700, el_left = 0, el_bottom = 800, el_right = 20\<rparr>"]
      b vh by simp
  show ?thesis
    using g r b m o by simp
qed

section \<open>TimingResolver\<close>

lemma fold_timings:
  "fold (\<lambda>r t. t(name r \<mapsto> responseEnd r)) requests t0 u =
     (let ms = filter (\<lambda>q. name q = u) requests
      in if ms = [] then t0 u else Some (responseEnd (last ms)))"
  by (induction requests arbitrary: t0) (auto simp: Let_def)

lemma timings_of_exact:
  "timings_of requests u =
     (let ms = filter (\<lambda>q. name q = u) requests
      in if ms = [] then None else Some (responseEnd (last ms)))"
  by (simp add: timings_of_def fold_timings)

text \<open>
  Claim C8. \<open>GetRectTimings\<close> gives every region the \<open>responseEnd\<close> of a record whose
  name is equal to the region's URL (the last such record of the list), and 0 when no
  record has that name. Only the records with exactly that name are read: a record whose
  name is a prefix or a part of the URL is filtered out and contributes nothing.
\<close>

theorem GetRectTimings_exact_url:
  "GetRectTimings requests rects =
     map (\<lambda>r. r\<lparr>tm := Some (let ms = filter (\<lambda>q. name q = url r) requests
                            in if ms = [] then 0 else responseEnd (last ms))\<rparr>) rects"
  by (simp add: GetRectTimings_def timings_of_exact Let_def)

theorem GetRectTimings_exact_url_witness:
  "GetRectTimings
     [\<lparr>name = ''http://a.example/i.png'', responseEnd = 120, initiatorType = ''img''\<rparr>,
      \<lparr>name = ''http://a.example/i'', responseEnd = 80, initiatorType = ''img''\<rparr>,
      \<lparr>name = ''http://a.example/i.png'', responseEnd = 300, initiatorType = ''img''\<rparr>]
     [region_at 7, (region_at 7)\<lparr>url := ''http://a.example/i.pn''\<rparr>] =
     [region_at 300, (region_at 0)\<lparr>url := ''http://a.example/i.pn''\<rparr>]"
  unfolding GetRectTimings_exact_url by (simp add: region_at_def)

section \<open>FirstPaintEstimator\<close>

lemma chromeFirstPaint_keeps:
  "chromeFirstPaint ch None = None \<Longrightarrow> chromeFirstPaint ch fp = fp"
  by (auto simp: chromeFirstPaint_def Let_def split: option.splits if_splits)

lemma critical_scan_done: "critical_scan hu rs (fp, True) = (fp, True)"
  by (induction rs) auto

text \<open>
  Claim C3, as stated, fails: the \<open>chrome.loadTimes\<close> branch runs after the
  \<open>msFirstPaint\<close> branch whether or not \<open>firstPaint\<close> is set, so a usable vendor signal
  replaces the native one. Here the native signal gives 500 and the result is 2000.
\<close>

theorem GetFirstPaint_vendor_replaces_native:
  "GetFirstPaint \<lparr>navigationStart = 1000, responseStart = 1100, msFirstPaint = Some 1500\<rparr>
     (Some \<lparr>firstPaintTime = Some 3, startLoadTime = Some 1, requestTime = None\<rparr>) (Some []) []
   \<noteq> Inr (1500 - 1000)"
  by (simp add: GetFirstPaint_def chromeFirstPaint_def nativeFirstPaint_def truthy_def)

text \<open>
  Claim C3, amended. When the native first-paint signal is present (defined and not 0)
  and the vendor branch assigns nothing (\<open>chromeFirstPaint ch None = None\<close>: no
  \<open>chrome.loadTimes\<close>, or no positive \<open>firstPaintTime\<close>, or no reference point at or
  before it), the result is the native signal minus \<open>navigationStart\<close>, whatever the
  head and the resource records are (the head is not read, so also without one).
\<close>

theorem GetFirstPaint_native:
  assumes "msFirstPaint t = Some v" and "v \<noteq> 0" and "chromeFirstPaint ch None = None"
  shows "GetFirstPaint t ch hd_opt requests = Inr (v - navigationStart t)"
  using assms chromeFirstPaint_keeps[OF assms(3)]
  by (simp add: GetFirstPaint_def nativeFirstPaint_def)

theorem GetFirstPaint_native_witness:
  "GetFirstPaint \<lparr>navigationStart = 1000, responseStart = 1100, msFirstPaint = Some 1500\<rparr>
     (Some \<lparr>firstPaintTime = Some 3, startLoadTime = Some 5, requestTime = None\<rparr>) (Some []) [] =
   Inr 500"
  using GetFirstPaint_native[of "\<lparr>navigationStart = 1000, responseStart = 1100, msFirstPaint = Some 1500\<rparr>"
      1500 "Some \<lparr>firstPaintTime = Some 3, startLoadTime = Some 5, requestTime = None\<rparr>" "Some []" "[]"]
  by (simp add: chromeFirstPaint_def truthy_def)

text \<open>
  Claim C4, as stated, fails: with \<open>startLoadTime = 10\<close> available and
  \<open>requestTime = 9\<close>, the reference is 9, not 10.
\<close>

theorem chromeFirstPaint_reference_not_startLoadTime:
  "chromeFirstPaint (Some \<lparr>firstPaintTime = Some 11, startLoadTime = Some 10, requestTime = Some 9\<rparr>) None
   \<noteq> Some ((11 - 10) * 1000)"
  by (simp add: chromeFirstPaint_def truthy_def)

text \<open>
  Claim C4, amended. In the vendor branch (a positive \<open>firstPaintTime\<close>) the reference
  point is the vendor \<open>requestTime\<close> whenever that is defined and not 0, whatever
  \<open>startLoadTime\<close> is: the branch assigns \<open>(firstPaintTime - requestTime) * 1000\<close> when
  \<open>requestTime\<close> is not after \<open>firstPaintTime\<close>, and assigns nothing otherwise (it does
  not turn to \<open>startLoadTime\<close>). \<open>startLoadTime\<close> is the reference only when
  \<open>requestTime\<close> is undefined or 0: then the branch assigns
  \<open>(firstPaintTime - startLoadTime) * 1000\<close> when \<open>startLoadTime\<close> is defined and not
  after \<open>firstPaintTime\<close>, and nothing otherwise.
\<close>

theorem chromeFirstPaint_reference:
  assumes "firstPaintTime c = Some fpt" and "0 < fpt"
  shows "(requestTime c = Some rt \<and> rt \<noteq> 0 \<longrightarrow>
            chromeFirstPaint (Some c) fp = (if rt \<le> fpt then Some ((fpt - rt) * 1000) else fp)) \<and>
         (\<not> truthy (requestTime c) \<longrightarrow>
            chromeFirstPaint (Some c) fp =
              (case startLoadTime c of
                 None \<Rightarrow> fp
               | Some st \<Rightarrow> if st \<le> fpt then Some ((fpt - st) * 1000) else fp))"
  using assms by (simp add: chromeFirstPaint_def truthy_def split: option.splits)

theorem chromeFirstPaint_reference_witness:
  "chromeFirstPaint (Some \<lparr>firstPaintTime = Some 11, startLoadTime = Some 10, requestTime = Some 9\<rparr>) None
     = Some 2000 \<and>
   chromeFirstPaint (Some \<lparr>firstPaintTime = Some 11, startLoadTime = Some 10, requestTime = Some 12\<rparr>) None
     = None \<and>
   chromeFirstPaint (Some \<lparr>firstPaintTime = Some 11, startLoadTime = Some 10, requestTime = Some 0\<rparr>) None
     = Some 1000 \<and>
   chromeFirstPaint (Some \<lparr>firstPaintTime = Some 11, startLoadTime = Some 10, requestTime = None\<rparr>) None
     = Some 1000 \<and>
   chromeFirstPaint (Some \<lparr>firstPaintTime = Some 11, startLoadTime = Some 12, requestTime = None\<rparr>) None
     = None \<and>
   chromeFirstPaint (Some \<lparr>firstPaintTime = Some 11, startLoadTime = None, requestTime = None\<rparr>) None
     = None"
  using chromeFirstPaint_reference[of
      "\<lparr>firstPaintTime = Some 11, startLoadTime = Some 10, requestTime = Some 9\<rparr>" 11 9 None]
    chromeFirstPaint_reference[of
      "\<lparr>firstPaintTime = Some 11, startLoadTime = Some 10, requestTime = Some 12\<rparr>" 11 12 None]
    chromeFirstPaint_reference[of
      "\<lparr>firstPaintTime = Some 11, startLoadTime = Some 10, requestTime = Some 0\<rparr>" 11 0 None]
    chromeFirstPaint_reference[of
      "\<lparr>firstPaintTime = Some 11, startLoadTime = Some 10, requestTime = None\<rparr>" 11 0 None]
    chromeFirstPaint_reference[of
      "\<lparr>firstPaintTime = Some 11, startLoadTime = Some 12, requestTime = None\<rparr>" 11 0 None]
    chromeFirstPaint_reference[of
      "\<lparr>firstPaintTime = Some 11, startLoadTime = None, requestTime = None\<rparr>" 11 0 None]
  by (simp add: truthy_def)

text \<open>
  Claim C5. With the head \<open>[script a (not async), stylesheet link b, script c (async)]\<close>,
  the records \<open>[a at 120, b at 150, c]\<close> in that order, \<open>responseStart - navStart\<close> at
  most 120 and neither a native nor a usable vendor signal, the result is 150: the scan
  advances over \<open>a\<close> and \<open>b\<close> and is over at the record of \<open>c\<close>, which is not in the
  critical set. The result is the same for every time and initiator of the record of
  \<open>c\<close> and for every list of records after it.
\<close>

theorem GetFirstPaint_critical_chain:
  assumes "a \<noteq> []" and "b \<noteq> []" and "c \<noteq> a" and "c \<noteq> b"
    and "responseStart t - navigationStart t \<le> 120"
    and "nativeFirstPaint t = None" and "chromeFirstPaint ch None = None"
  shows "GetFirstPaint t ch
           (Some [elA\<lparr>tagName := ''SCRIPT'', src := a, async := False\<rparr>,
                  elB\<lparr>tagName := ''LINK'', rel := ''stylesheet'', href := b\<rparr>,
                  elC\<lparr>tagName := ''SCRIPT'', src := c, async := True\<rparr>])
           ([\<lparr>name = a, responseEnd = 120, initiatorType = ''script''\<rparr>,
             \<lparr>name = b, responseEnd = 150, initiatorType = ''link''\<rparr>,
             \<lparr>name = c, responseEnd = x, initiatorType = ty\<rparr>] @ later) = Inr 150"
  using assms
  by (auto simp: GetFirstPaint_def headFallback_def headURLs_of_def headURLs_step_def
      critical_scan_done)

theorem GetFirstPaint_critical_chain_witness:
  "GetFirstPaint \<lparr>navigationStart = 1000, responseStart = 1100, msFirstPaint = None\<rparr> None
     (Some [img_visible\<lparr>tagName := ''SCRIPT'', src := ''http://a.example/a.js'', async := False\<rparr>,
            img_visible\<lparr>tagName := ''LINK'', rel := ''stylesheet'', href := ''http://a.example/b.css''\<rparr>,
            img_visible\<lparr>tagName := ''SCRIPT'', src := ''http://a.example/c.js'', async := True\<rparr>])
     [\<lparr>name = ''http://a.example/a.js'', responseEnd = 120, initiatorType = ''script''\<rparr>,
      \<lparr>name = ''http://a.example/b.css'', responseEnd = 150, initiatorType = ''link''\<rparr>,
      \<lparr>name = ''http://a.example/c.js'', responseEnd = 90, initiatorType = ''script''\<rparr>] = Inr 150"
  using GetFirstPaint_critical_chain[of "''http://a.example/a.js''" "''http://a.example/b.css''"
      "''http://a.example/c.js''" "\<lparr>navigationStart = 1000, responseStart = 1100, msFirstPaint = None\<rparr>"
      None img_visible img_visible img_visible 90 "''script''" "[]"]
  by (simp add: nativeFirstPaint_def chromeFirstPaint_def)

section \<open>VisualProgressBuilder and SpeedIndexIntegrator\<close>

subsection \<open>The buckets\<close>

lemma add_paint_keys:
  "set (map fst (add_paint k a ps)) = insert k (set (map fst ps))"
  by (induction k a ps rule: add_paint.induct) (simp_all add: insert_commute)

lemma add_paint_distinct:
  "distinct (map fst ps) \<Longrightarrow> distinct (map fst (add_paint k a ps))"
proof (induction ps)
  case Nil
  then show ?case by simp
next
  case (Cons p ps)
  obtain k' v where p: "p = (k', v)" by (cases p)
  show ?case
  proof (cases "k' = k")
    case True
    then show ?thesis using Cons.prems p by simp
  next
    case False
    have "k' \<notin> set (map fst (add_paint k a ps))"
      using Cons.prems p False unfolding add_paint_keys by simp
    then show ?thesis using Cons p False by simp
  qed
qed

lemma add_paint_sum:
  "sum_list (map snd (add_paint k a ps)) = sum_list (map snd ps) + a"
  by (induction ps) auto

lemma add_paint_nonneg:
  "0 \<le> a \<Longrightarrow> \<forall>p \<in> set ps. 0 \<le> snd p \<Longrightarrow> \<forall>p \<in> set (add_paint k a ps). 0 \<le> snd p"
  by (induction k a ps rule: add_paint.induct) simp_all

lemma rects_loop_keys:
  "set (map fst (fst (rects_loop fp rects (ps, t)))) = set (map fst ps) \<union> paint_time fp ` set rects"
  by (induction rects arbitrary: ps t) (auto simp: add_paint_keys simp del: set_map)

lemma rects_loop_distinct:
  "distinct (map fst ps) \<Longrightarrow> distinct (map fst (fst (rects_loop fp rects (ps, t))))"
  by (induction rects arbitrary: ps t) (auto simp: add_paint_distinct)

lemma rects_loop_total:
  "snd (rects_loop fp rects (ps, t)) = t + sum_list (map area rects)"
  by (induction rects arbitrary: ps t) auto

lemma rects_loop_sum:
  "sum_list (map snd (fst (rects_loop fp rects (ps, t)))) = sum_list (map snd ps) + sum_list (map area rects)"
  by (induction rects arbitrary: ps t) (auto simp: add_paint_sum)

lemma rects_loop_nonneg:
  "\<forall>r \<in> set rects. 0 \<le> area r \<Longrightarrow> \<forall>p \<in> set ps. 0 \<le> snd p \<Longrightarrow>
   \<forall>p \<in> set (fst (rects_loop fp rects (ps, t))). 0 \<le> snd p"
proof (induction rects arbitrary: ps t)
  case Nil
  then show ?case by simp
next
  case (Cons r rects)
  have "\<forall>p \<in> set (add_paint (paint_time fp r) (area r) ps). 0 \<le> snd p"
    using add_paint_nonneg[of "area r" ps] Cons.prems by simp
  then show ?case using Cons.IH Cons.prems by simp
qed

lemma paint_buckets_distinct: "distinct (map fst (fst (paint_buckets w fp rects)))"
  by (simp add: paint_buckets_def add_background_def Let_def rects_loop_distinct add_paint_distinct)

lemma paint_buckets_sum:
  "sum_list (map snd (fst (paint_buckets w fp rects))) = snd (paint_buckets w fp rects)"
  by (simp add: paint_buckets_def add_background_def Let_def rects_loop_sum rects_loop_total add_paint_sum)

lemma paint_buckets_nonneg:
  assumes "\<forall>r \<in> set rects. 0 \<le> area r"
  shows "\<forall>p \<in> set (fst (paint_buckets w fp rects)). 0 \<le> snd p"
proof -
  have l: "\<forall>p \<in> set (fst (rects_loop fp rects ([(0, 0)], 0))). 0 \<le> snd p"
    using rects_loop_nonneg[OF assms, of "[(0, 0)]"] by simp
  have "0 \<le> max (viewport_pixels w - t) 0 * pageBackgroundWeight" for t
    by (simp add: pageBackgroundWeight_def)
  then have "\<forall>p \<in> set (add_paint fp (max (viewport_pixels w - t) 0 * pageBackgroundWeight)
                 (fst (rects_loop fp rects ([(0, 0)], 0)))). 0 \<le> snd p" for t
    using add_paint_nonneg[OF _ l] by blast
  then show ?thesis
    using l by (simp add: paint_buckets_def add_background_def Let_def)
qed

lemma paint_buckets_zero_key: "0 \<in> set (map fst (fst (paint_buckets w fp rects)))"
  by (simp add: paint_buckets_def add_background_def Let_def rects_loop_keys add_paint_keys del: set_map)

lemma accumulate_times: "map ptm (accumulate T acc ps) = map fst ps"
  by (induction ps arbitrary: acc) auto

lemma accumulate_Nil: "accumulate T acc ps = [] \<longleftrightarrow> ps = []"
  by (cases ps) auto

lemma accumulate_last:
  "ps \<noteq> [] \<Longrightarrow> progress (last (accumulate T acc ps)) = (acc + sum_list (map snd ps)) / T"
proof (induction ps arbitrary: acc)
  case Nil
  then show ?case by simp
next
  case (Cons p ps)
  obtain k a where p: "p = (k, a)" by (cases p)
  show ?case
  proof (cases "ps = []")
    case True
    then show ?thesis using p by simp
  next
    case False
    then show ?thesis using Cons.IH[OF False, of "acc + a"] p
      by (simp add: accumulate_Nil add.assoc)
  qed
qed

lemma accumulate_lower:
  "0 < T \<Longrightarrow> \<forall>p \<in> set ps. 0 \<le> snd p \<Longrightarrow> \<forall>q \<in> set (accumulate T acc ps). acc / T \<le> progress q"
proof (induction ps arbitrary: acc)
  case Nil
  then show ?case by simp
next
  case (Cons p ps)
  obtain k a where p: "p = (k, a)" by (cases p)
  have a: "0 \<le> a" using Cons.prems p by simp
  have step: "acc / T \<le> (acc + a) / T"
    using a Cons.prems(1) by (simp add: divide_le_cancel)
  have "\<forall>q \<in> set (accumulate T (acc + a) ps). (acc + a) / T \<le> progress q"
    using Cons.IH[of "acc + a"] Cons.prems by simp
  then show ?case using step p by fastforce
qed

lemma accumulate_sorted:
  "0 < T \<Longrightarrow> \<forall>p \<in> set ps. 0 \<le> snd p \<Longrightarrow> sorted (map progress (accumulate T acc ps))"
proof (induction ps arbitrary: acc)
  case Nil
  then show ?case by simp
next
  case (Cons p ps)
  obtain k a where p: "p = (k, a)" by (cases p)
  have "\<forall>q \<in> set (accumulate T (acc + a) ps). (acc + a) / T \<le> progress q"
    using accumulate_lower[of T ps "acc + a"] Cons.prems by simp
  then show ?case using Cons.IH[of "acc + a"] Cons.prems p by simp
qed

lemma sort_key_sum:
  "sum_list (map snd (sort_key fst (ps :: (real \<times> real) list))) = sum_list (map snd ps)"
proof -
  have "mset (map snd (sort_key fst ps)) = mset (map snd ps)" by simp
  then show ?thesis by (metis sum_mset_sum_list)
qed

lemma sort_key_strict:
  "distinct (map fst (ps :: (real \<times> real) list)) \<Longrightarrow> sorted_wrt (<) (map fst (sort_key fst ps))"
proof -
  assume d: "distinct (map fst ps)"
  have "mset (map fst (sort_key fst ps)) = mset (map fst ps)" by simp
  then have "distinct (map fst (sort_key fst ps))" using d by (metis mset_eq_imp_distinct_iff)
  moreover have "sorted (map fst (sort_key fst ps))" by simp
  ultimately show ?thesis by (simp add: strict_sorted_iff)
qed

text \<open>
  The keys of \<open>paints\<close> are distinct, so the sorted array does not depend on the order in
  which \<open>for (var tm in paints)\<close> visits the keys, nor on the sorting algorithm: every
  arrangement of the buckets in ascending order of time is \<open>sort_key fst paints\<close>.
\<close>

lemma sorted_buckets_unique:
  fixes ps qs :: "(real \<times> real) list"
  assumes d: "distinct (map fst ps)" and m: "mset qs = mset ps" and s: "sorted (map fst qs)"
  shows "qs = sort_key fst ps"
proof -
  have dq: "distinct (map fst qs)"
    using d m by (metis mset_eq_imp_distinct_iff mset_map)
  have "filter (\<lambda>x. fst k = fst x) qs = filter (\<lambda>x. fst k = fst x) ps" if "k \<in> set qs" for k
  proof -
    have kp: "k \<in> set ps" using that m by (metis mset_eq_setD)
    have "filter (\<lambda>x. fst k = fst x) qs = [k]"
      using dq that by (induction qs) (auto simp: image_iff)
    moreover have "filter (\<lambda>x. fst k = fst x) ps = [k]"
      using d kp by (induction ps) (auto simp: image_iff)
    ultimately show ?thesis by simp
  qed
  then show ?thesis
    using properties_for_sort_key[of qs ps fst] m s by metis
qed

subsection \<open>Removing the point of the initial bucket\<close>

lemma add_paint_other:
  "k \<noteq> k0 \<Longrightarrow> (k0, v) \<in> set ps \<Longrightarrow> (k0, v) \<in> set (add_paint k a ps)"
  by (induction k a ps rule: add_paint.induct) auto

lemma rects_loop_other:
  "\<forall>r \<in> set rects. paint_time fp r \<noteq> k0 \<Longrightarrow> (k0, v) \<in> set ps \<Longrightarrow>
   (k0, v) \<in> set (fst (rects_loop fp rects (ps, t)))"
  by (induction rects arbitrary: ps t) (auto simp: add_paint_other)

lemma paint_buckets_synthetic:
  assumes "\<forall>r \<in> set rects. paint_time fp r \<noteq> 0" and "0 < viewport_pixels w \<longrightarrow> fp \<noteq> 0"
  shows "(0, 0) \<in> set (fst (paint_buckets w fp rects))"
  using assms rects_loop_other[of rects fp 0 0 "[(0, 0)]" 0]
  by (auto simp: paint_buckets_def add_background_def Let_def add_paint_other)

lemma accumulate_append:
  "accumulate T acc (xs @ ys) = accumulate T acc xs @ accumulate T (acc + sum_list (map snd xs)) ys"
  by (induction xs arbitrary: acc) (auto simp: add.assoc)

lemma integrate_append: "integrate (xs @ ys) s = integrate ys (integrate xs s)"
  by (induction xs s rule: integrate.induct) (auto simp: Let_def)

lemma integrate_last:
  "ps \<noteq> [] \<Longrightarrow> snd (integrate ps s) = (ptm (last ps), progress (last ps))"
proof (induction ps s rule: integrate.induct)
  case (1 s)
  then show ?case by simp
next
  case (2 p ps speedIndex lastTime lastProgress)
  then show ?case by (cases "ps = []") (auto simp: Let_def)
qed

lemma accumulate_last_time:
  "ps \<noteq> [] \<Longrightarrow> ptm (last (accumulate T acc ps)) = fst (last ps)"
  using accumulate_times[of T acc ps] by (metis last_map accumulate_Nil)

lemma filter_accumulate_nonzero:
  "\<forall>p \<in> set ps. fst p \<noteq> 0 \<Longrightarrow> filter (\<lambda>p. ptm p \<noteq> 0) (accumulate T acc ps) = accumulate T acc ps"
proof -
  assume "\<forall>p \<in> set ps. fst p \<noteq> 0"
  then have "\<forall>q \<in> set (map ptm (accumulate T acc ps)). q \<noteq> 0"
    unfolding accumulate_times by simp
  then show ?thesis by (simp add: filter_id_conv)
qed

text \<open>The state of the integrator after the points before the point at time 0.\<close>

lemma integrate_negative_prefix:
  assumes "\<forall>p \<in> set xs. fst p < 0"
  shows "\<exists>si lt. integrate (accumulate T 0 xs) (0, 0, 0) = (si, lt, sum_list (map snd xs) / T) \<and> lt \<le> 0"
proof (cases "xs = []")
  case True
  then show ?thesis by simp
next
  case False
  obtain si lt lp where st: "integrate (accumulate T 0 xs) (0, 0, 0) = (si, lt, lp)"
    by (cases "integrate (accumulate T 0 xs) (0, 0, 0)")
  have ne: "accumulate T 0 xs \<noteq> []" using False by (simp add: accumulate_Nil)
  have "snd (integrate (accumulate T 0 xs) (0, 0, 0)) = (fst (last xs), sum_list (map snd xs) / T)"
    using integrate_last[OF ne] accumulate_last[OF False, of T 0] accumulate_last_time[OF False, of T 0]
    by simp
  then have "lt = fst (last xs)" "lp = sum_list (map snd xs) / T" using st by simp_all
  moreover have "fst (last xs) < 0" using assms False by simp
  ultimately show ?thesis using st by simp
qed

lemma integrate_skip_zero:
  assumes neg: "\<forall>p \<in> set xs. fst p < 0" and pos: "\<forall>p \<in> set ys. 0 < fst p"
    and tot: "sum_list (map snd xs) + sum_list (map snd ys) = T" and T: "T \<noteq> 0"
  shows "fst (integrate (accumulate T 0 (xs @ (0, 0) # ys)) (0, 0, 0)) =
         fst (integrate (accumulate T 0 (xs @ ys)) (0, 0, 0))"
proof -
  let ?S = "sum_list (map snd xs)"
  obtain si lt where st: "integrate (accumulate T 0 xs) (0, 0, 0) = (si, lt, ?S / T)" and lt: "lt \<le> 0"
    using integrate_negative_prefix[OF neg] by blast
  show ?thesis
  proof (cases ys)
    case Nil
    then have "?S / T = 1" using tot T by simp
    then show ?thesis using Nil st by (simp add: accumulate_append integrate_append Let_def)
  next
    case (Cons y ys')
    obtain k a where y: "y = (k, a)" by (cases y)
    have k: "0 < k" using pos Cons y by simp
    define lp where "lp = ?S / T"
    define z where "z = \<lparr>ptm = 0, parea = 0, progress = lp\<rparr>"
    define q where "q = \<lparr>ptm = k, parea = a, progress = (?S + a) / T\<rparr>"
    have st': "integrate (accumulate T 0 xs) (0, 0, 0) = (si, lt, lp)"
      using st by (simp add: lp_def)
    have two: "integrate [z, q] (si, lt, lp) = integrate [q] (si, lt, lp)"
    proof (cases "lp < 1")
      case True
      have "(1 - lp) * (0 - lt) + (1 - lp) * k = (1 - lp) * (k - lt)"
        by (simp add: right_diff_distrib)
      then show ?thesis using True lt k by (auto simp: z_def q_def Let_def)
    next
      case False
      then show ?thesis by (simp add: z_def q_def Let_def)
    qed
    have l: "accumulate T 0 (xs @ (0, 0) # ys) = accumulate T 0 xs @ [z, q] @ accumulate T (?S + a) ys'"
      using Cons y by (simp add: accumulate_append z_def q_def lp_def)
    have r: "accumulate T 0 (xs @ ys) = accumulate T 0 xs @ [q] @ accumulate T (?S + a) ys'"
      using Cons y by (simp add: accumulate_append q_def)
    show ?thesis
      unfolding l r integrate_append st' two ..
  qed
qed

lemma accumulate_buckets: "map (\<lambda>p. (ptm p, parea p)) (accumulate T acc ps) = ps"
  by (induction ps arbitrary: acc) auto

subsection \<open>Regions that all paint at first paint\<close>

lemma add_paint_twice: "add_paint k b (add_paint k a ps) = add_paint k (a + b) ps"
  by (induction k a ps rule: add_paint.induct) auto

lemma rects_loop_uniform:
  "\<forall>r \<in> set rects. paint_time fp r = fp \<Longrightarrow> rects \<noteq> [] \<Longrightarrow>
   rects_loop fp rects (ps, t) = (add_paint fp (sum_list (map area rects)) ps, t + sum_list (map area rects))"
proof (induction rects arbitrary: ps t)
  case Nil
  then show ?case by simp
next
  case (Cons r rects)
  show ?case
  proof (cases "rects = []")
    case True
    then show ?thesis using Cons.prems by simp
  next
    case False
    then show ?thesis using Cons.IH[OF _ False] Cons.prems by (simp add: add_paint_twice add.assoc)
  qed
qed

lemma paint_buckets_uniform:
  assumes u: "\<forall>r \<in> set rects. paint_time fp r = fp"
  shows "paint_buckets w fp rects = ([(0, 0)], 0) \<or>
         paint_buckets w fp rects =
           (add_paint fp (snd (paint_buckets w fp rects)) [(0, 0)], snd (paint_buckets w fp rects))"
proof (cases "rects = []")
  case True
  then show ?thesis by (simp add: paint_buckets_def add_background_def Let_def)
next
  case False
  show ?thesis
    using rects_loop_uniform[OF u False, of "[(0, 0)]" 0]
    by (simp add: paint_buckets_def add_background_def Let_def add_paint_twice)
qed

lemma uniform_speed_index:
  assumes u: "\<forall>r \<in> set rects. paint_time fp r = fp" and fp: "0 \<le> fp"
  shows "CalculateSpeedIndex fp (CalculateVisualProgress w fp rects) = fp"
proof -
  define T where "T = snd (paint_buckets w fp rects)"
  consider "paint_buckets w fp rects = ([(0, 0)], 0)"
    | "paint_buckets w fp rects = (add_paint fp T [(0, 0)], T)"
    using paint_buckets_uniform[OF u, of w] unfolding T_def by blast
  then show ?thesis
  proof cases
    case 1
    then show ?thesis by (simp add: CalculateVisualProgress_def CalculateSpeedIndex_def)
  next
    case 2
    show ?thesis
    proof (cases "T = 0")
      case True
      then show ?thesis using 2 by (simp add: CalculateVisualProgress_def CalculateSpeedIndex_def)
    next
      case False
      then show ?thesis using 2 fp
        by (cases "fp = 0") (simp_all add: CalculateVisualProgress_def CalculateSpeedIndex_def Let_def)
    qed
  qed
qed

lemma GetRectTimings_area:
  "r \<in> set (GetRectTimings requests rects) \<Longrightarrow> \<exists>r0 \<in> set rects. area r = area r0 \<and> url r = url r0 \<and> rect r = rect r0"
  by (auto simp: GetRectTimings_def)

lemma GetRectTimings_no_records:
  "r \<in> set (GetRectTimings [] rects) \<Longrightarrow> tm r = Some 0"
  by (auto simp: GetRectTimings_def timings_of_def)

subsection \<open>The sample inputs, evaluated\<close>

lemma pixels_covered: "viewport_pixels covered_window = 100"
  by (simp add: viewport_pixels_def covered_window_def or_else_def)

lemma pixels_sample: "viewport_pixels sample_window = 480000"
  by (simp add: viewport_pixels_def sample_window_def or_else_def)

lemma pixels_blank: "viewport_pixels blank_window = 0"
  by (simp add: viewport_pixels_def blank_window_def or_else_def)

lemma buckets_two:
  "paint_buckets covered_window 100 [region_at 100, region_at 300] = ([(0, 0), (100, 50), (300, 50)], 100)"
  by (simp add: paint_buckets_def add_background_def paint_time_def pageBackgroundWeight_def
      region_at_def pixels_covered)

lemma progress_two:
  "CalculateVisualProgress covered_window 100 [region_at 100, region_at 300] =
     [\<lparr>ptm = 0, parea = 0, progress = 0\<rparr>,
      \<lparr>ptm = 100, parea = 50, progress = 1 / 2\<rparr>,
      \<lparr>ptm = 300, parea = 50, progress = 1\<rparr>]"
  by (simp add: CalculateVisualProgress_def buckets_two)

lemma buckets_none_sample:
  "paint_buckets sample_window fp [] = (add_paint fp 48000 [(0, 0)], 48000)"
  by (simp add: paint_buckets_def add_background_def pageBackgroundWeight_def pixels_sample)

lemma buckets_none_blank: "paint_buckets blank_window fp [] = ([(0, 0)], 0)"
  by (simp add: paint_buckets_def add_background_def pixels_blank)

text \<open>
  Claim C6. With \<open>firstPaint = 100\<close>, a region of area 50 painted at 100, a region of
  area 50 painted at 300 and a viewport of at most 100 pixels (so the background adds
  nothing), the progress is 1/2 at time 100 and 1 at time 300, after the point of the
  initial bucket at time 0, and the Speed Index is 200.
\<close>

theorem two_bucket_integral:
  assumes "viewport_pixels w \<le> 100"
  shows "CalculateVisualProgress w 100
           [r1\<lparr>area := 50, tm := Some 100\<rparr>, r2\<lparr>area := 50, tm := Some 300\<rparr>] =
           [\<lparr>ptm = 0, parea = 0, progress = 0\<rparr>,
            \<lparr>ptm = 100, parea = 50, progress = 1 / 2\<rparr>,
            \<lparr>ptm = 300, parea = 50, progress = 1\<rparr>] \<and>
         CalculateSpeedIndex 100
           (CalculateVisualProgress w 100
              [r1\<lparr>area := 50, tm := Some 100\<rparr>, r2\<lparr>area := 50, tm := Some 300\<rparr>]) = 200"
proof -
  have pb: "paint_buckets w 100 [r1\<lparr>area := 50, tm := Some 100\<rparr>, r2\<lparr>area := 50, tm := Some 300\<rparr>]
            = ([(0, 0), (100, 50), (300, 50)], 100)"
    using assms
    by (simp add: paint_buckets_def add_background_def paint_time_def pageBackgroundWeight_def max_def)
  have cvp: "CalculateVisualProgress w 100
           [r1\<lparr>area := 50, tm := Some 100\<rparr>, r2\<lparr>area := 50, tm := Some 300\<rparr>] =
           [\<lparr>ptm = 0, parea = 0, progress = 0\<rparr>,
            \<lparr>ptm = 100, parea = 50, progress = 1 / 2\<rparr>,
            \<lparr>ptm = 300, parea = 50, progress = 1\<rparr>]"
    by (simp add: CalculateVisualProgress_def pb)
  show ?thesis
    unfolding cvp by (simp add: CalculateSpeedIndex_def)
qed

theorem two_bucket_integral_witness:
  "viewport_pixels covered_window \<le> 100 \<and>
   CalculateSpeedIndex 100
     (CalculateVisualProgress covered_window 100
        [(region_at 100)\<lparr>area := 50, tm := Some 100\<rparr>, (region_at 300)\<lparr>area := 50, tm := Some 300\<rparr>]) = 200"
  using two_bucket_integral[of covered_window "region_at 100" "region_at 300"]
  by (simp add: pixels_covered CalculateSpeedIndex_def)

subsection \<open>Monotonicity\<close>

lemma progress_times_strict: "sorted_wrt (<) (map ptm (CalculateVisualProgress w fp rects))"
proof -
  obtain paints T where pb: "paint_buckets w fp rects = (paints, T)"
    by (cases "paint_buckets w fp rects")
  have d: "distinct (map fst paints)" using paint_buckets_distinct[of w fp rects] pb by simp
  show ?thesis
    using sort_key_strict[OF d] by (simp add: CalculateVisualProgress_def pb accumulate_times)
qed

lemma progress_monotone:
  assumes nn: "\<forall>r \<in> set rects. 0 \<le> area r"
  shows "sorted (map progress (CalculateVisualProgress w fp rects))"
proof -
  obtain paints T where pb: "paint_buckets w fp rects = (paints, T)"
    by (cases "paint_buckets w fp rects")
  have s: "sum_list (map snd paints) = T" using paint_buckets_sum[of w fp rects] pb by simp
  show ?thesis
  proof (cases "T = 0")
    case True
    then show ?thesis by (simp add: CalculateVisualProgress_def pb)
  next
    case False
    have n: "\<forall>p \<in> set paints. 0 \<le> snd p" using paint_buckets_nonneg[OF nn, of w fp] pb by simp
    then have "0 \<le> sum_list (map snd paints)" by (intro sum_list_nonneg) auto
    then have T: "0 < T" using s False by simp
    have "\<forall>p \<in> set (sort_key fst paints). 0 \<le> snd p" using n by simp
    then show ?thesis
      using accumulate_sorted[OF T] False by (simp add: CalculateVisualProgress_def pb)
  qed
qed

lemma progress_final:
  assumes "snd (paint_buckets w fp rects) \<noteq> 0"
  shows "CalculateVisualProgress w fp rects \<noteq> [] \<and>
         progress (last (CalculateVisualProgress w fp rects)) = 1"
proof -
  obtain paints T where pb: "paint_buckets w fp rects = (paints, T)"
    by (cases "paint_buckets w fp rects")
  have s: "sum_list (map snd paints) = T" using paint_buckets_sum[of w fp rects] pb by simp
  have z: "paints \<noteq> []" using paint_buckets_zero_key[of w fp rects] pb by auto
  have T0: "T \<noteq> 0" using assms pb by simp
  have ne: "sort_key fst paints \<noteq> []" using z by (metis length_sort length_0_conv)
  show ?thesis
    using accumulate_last[OF ne, of T 0] T0
    by (simp add: CalculateVisualProgress_def pb accumulate_Nil ne sort_key_sum s)
qed

lemma pipeline_areas: "r \<in> set (GetRectTimings requests (GetRects re w)) \<Longrightarrow> 0 < area r"
proof -
  assume "r \<in> set (GetRectTimings requests (GetRects re w))"
  then obtain r0 where r0: "r0 \<in> set (GetRects re w)" and a: "area r = area r0"
    using GetRectTimings_area[of r requests "GetRects re w"] by blast
  have "0 < area r0" using GetRects_ok[OF r0] by (simp add: region_ok_def)
  then show ?thesis using a by simp
qed

text \<open>
  Claim C2. The points that \<open>CalculateVisualProgress\<close> builds are in strictly
  ascending order of time; their \<open>progress\<close> values are non-decreasing in that order
  whenever no region has a negative area, and so for the regions of every window, which
  have positive areas; and whenever the total is not 0 (in particular when it is
  positive) there is a last point and its \<open>progress\<close> is 1. Numbers are exact reals
  here, so the last value is exactly 1.
\<close>

theorem VisualProgress_monotone:
  "sorted_wrt (<) (map ptm (CalculateVisualProgress w fp rects)) \<and>
   ((\<forall>r \<in> set rects. 0 \<le> area r) \<longrightarrow>
      sorted (map progress (CalculateVisualProgress w fp rects))) \<and>
   sorted (map progress (CalculateVisualProgress w fp (GetRectTimings requests (GetRects re w)))) \<and>
   (snd (paint_buckets w fp rects) \<noteq> 0 \<longrightarrow>
      CalculateVisualProgress w fp rects \<noteq> [] \<and>
      progress (last (CalculateVisualProgress w fp rects)) = 1)"
proof -
  have "\<forall>r \<in> set (GetRectTimings requests (GetRects re w)). 0 \<le> area r"
    using pipeline_areas[of _ requests re w] by (auto intro: less_imp_le)
  then have "sorted (map progress (CalculateVisualProgress w fp (GetRectTimings requests (GetRects re w))))"
    by (rule progress_monotone)
  then show ?thesis
    using progress_times_strict[of w fp rects] progress_monotone[of rects w fp]
      progress_final[of w fp rects]
    by blast
qed

theorem VisualProgress_monotone_witness:
  "0 \<le> area (region_at 100) \<and> 0 \<le> area (region_at 300) \<and>
   snd (paint_buckets covered_window 100 [region_at 100, region_at 300]) \<noteq> 0 \<and>
   sorted_wrt (<) (map ptm (CalculateVisualProgress covered_window 100 [region_at 100, region_at 300])) \<and>
   sorted (map progress (CalculateVisualProgress covered_window 100 [region_at 100, region_at 300])) \<and>
   progress (last (CalculateVisualProgress covered_window 100 [region_at 100, region_at 300])) = 1"
proof -
  have a: "0 \<le> area (region_at 100) \<and> 0 \<le> area (region_at 300)"
    by (simp add: region_at_def)
  have t: "snd (paint_buckets covered_window 100 [region_at 100, region_at 300]) \<noteq> 0"
    by (simp add: buckets_two)
  show ?thesis
    using VisualProgress_monotone[of covered_window 100 "[region_at 100, region_at 300]" "[]" no_match]
      a t by simp
qed

subsection \<open>The point of the initial bucket\<close>

text \<open>
  Claim C10. Whenever the total is not 0 (in particular when it is positive), the
  progress curve has a point at time 0, from the bucket \<open>{'0': 0}\<close> that \<open>paints\<close>
  starts with. When no region's paint time is 0 and the background is not added at
  time 0, every point at time 0 has area 0, and the Speed Index of the curve without it
  is the Speed Index of the curve.
\<close>

theorem synthetic_zero_point:
  assumes "snd (paint_buckets w fp rects) \<noteq> 0"
  shows "(\<exists>p \<in> set (CalculateVisualProgress w fp rects). ptm p = 0) \<and>
         ((\<forall>r \<in> set rects. paint_time fp r \<noteq> 0) \<and> (0 < viewport_pixels w \<longrightarrow> fp \<noteq> 0) \<longrightarrow>
            (\<forall>p \<in> set (CalculateVisualProgress w fp rects). ptm p = 0 \<longrightarrow> parea p = 0) \<and>
            CalculateSpeedIndex fp (filter (\<lambda>p. ptm p \<noteq> 0) (CalculateVisualProgress w fp rects)) =
            CalculateSpeedIndex fp (CalculateVisualProgress w fp rects))"
proof -
  obtain paints T where pb: "paint_buckets w fp rects = (paints, T)" by (cases "paint_buckets w fp rects")
  define B where "B = sort_key fst paints"
  have T: "T \<noteq> 0" using assms pb by simp
  have cvp: "CalculateVisualProgress w fp rects = accumulate T 0 B"
    using T by (simp add: CalculateVisualProgress_def pb B_def)
  have d: "distinct (map fst paints)" using paint_buckets_distinct[of w fp rects] pb by simp
  have strict: "sorted_wrt (<) (map fst B)" unfolding B_def by (rule sort_key_strict[OF d])
  have s: "sum_list (map snd B) = T"
    using paint_buckets_sum[of w fp rects] pb by (simp add: B_def sort_key_sum)
  have "0 \<in> set (map fst B)" using paint_buckets_zero_key[of w fp rects] pb by (simp add: B_def)
  then have "0 \<in> set (map ptm (accumulate T 0 B))" unfolding accumulate_times .
  then have a: "\<exists>p \<in> set (CalculateVisualProgress w fp rects). ptm p = 0"
    unfolding cvp by auto
  have b: "(\<forall>p \<in> set (CalculateVisualProgress w fp rects). ptm p = 0 \<longrightarrow> parea p = 0) \<and>
            CalculateSpeedIndex fp (filter (\<lambda>p. ptm p \<noteq> 0) (CalculateVisualProgress w fp rects)) =
            CalculateSpeedIndex fp (CalculateVisualProgress w fp rects)"
    if h: "(\<forall>r \<in> set rects. paint_time fp r \<noteq> 0) \<and> (0 < viewport_pixels w \<longrightarrow> fp \<noteq> 0)"
  proof -
    have "(0, 0) \<in> set paints" using paint_buckets_synthetic[of rects fp w] h pb by simp
    then have zB: "(0, 0) \<in> set B" by (simp add: B_def)
    then obtain xs ys where split: "B = xs @ (0, 0) # ys" by (meson split_list)
    have neg: "\<forall>p \<in> set xs. fst p < 0" and pos: "\<forall>p \<in> set ys. 0 < fst p"
      using strict unfolding split by (auto simp: sorted_wrt_append)
    have tot: "sum_list (map snd xs) + sum_list (map snd ys) = T" using s unfolding split by simp
    have ne: "xs @ ys \<noteq> []" using tot T by auto
    have area0: "parea p = 0" if p: "p \<in> set (accumulate T 0 B)" and t: "ptm p = 0" for p
    proof -
      have "(ptm p, parea p) \<in> set (map (\<lambda>p. (ptm p, parea p)) (accumulate T 0 B))"
        using p by force
      then have "(0, parea p) \<in> set B" unfolding accumulate_buckets using t by simp
      moreover have "distinct (map fst B)" using strict by (simp add: strict_sorted_iff)
      ultimately show ?thesis using zB by (metis eq_key_imp_eq_value)
    qed
    have nz: "\<forall>p \<in> set xs. fst p \<noteq> 0" "\<forall>p \<in> set ys. fst p \<noteq> 0"
      using neg pos by auto
    have f: "filter (\<lambda>p. ptm p \<noteq> 0) (accumulate T 0 B) = accumulate T 0 (xs @ ys)"
      unfolding split by (simp add: accumulate_append filter_accumulate_nonzero nz)
    have "CalculateSpeedIndex fp (accumulate T 0 (xs @ ys)) = CalculateSpeedIndex fp (accumulate T 0 B)"
      using integrate_skip_zero[OF neg pos tot T] ne
      unfolding split by (simp add: CalculateSpeedIndex_def accumulate_Nil)
    then show ?thesis using area0 unfolding cvp f by blast
  qed
  show ?thesis using a b by blast
qed

theorem synthetic_zero_point_witness:
  "snd (paint_buckets covered_window 100 [region_at 100, region_at 300]) \<noteq> 0 \<and>
   paint_time 100 (region_at 100) \<noteq> 0 \<and> paint_time 100 (region_at 300) \<noteq> 0 \<and> (100::real) \<noteq> 0 \<and>
   CalculateSpeedIndex 100
     (filter (\<lambda>p. ptm p \<noteq> 0) (CalculateVisualProgress covered_window 100 [region_at 100, region_at 300])) =
   CalculateSpeedIndex 100 (CalculateVisualProgress covered_window 100 [region_at 100, region_at 300]) \<and>
   CalculateSpeedIndex 100 (CalculateVisualProgress covered_window 100 [region_at 100, region_at 300]) = 200"
proof -
  have h: "snd (paint_buckets covered_window 100 [region_at 100, region_at 300]) \<noteq> 0"
    by (simp add: buckets_two)
  have t: "paint_time 100 (region_at 100) \<noteq> 0 \<and> paint_time 100 (region_at 300) \<noteq> 0"
    by (simp add: paint_time_def region_at_def)
  have v: "CalculateSpeedIndex 100 (CalculateVisualProgress covered_window 100 [region_at 100, region_at 300]) = 200"
    by (simp add: progress_two CalculateSpeedIndex_def)
  show ?thesis
    using synthetic_zero_point[OF h] h t v by simp
qed

subsection \<open>No regions\<close>

text \<open>
  Claim C7, as stated, fails: without regions the background bucket is still added when
  the viewport has pixels, so the curve is not empty; and a negative first paint is not
  the Speed Index of that curve.
\<close>

theorem no_regions_progress_not_empty:
  "CalculateVisualProgress sample_window 50 [] \<noteq> [] \<and>
   CalculateSpeedIndex (- 5) (CalculateVisualProgress sample_window (- 5) []) \<noteq> - 5"
  by (simp add: CalculateVisualProgress_def buckets_none_sample CalculateSpeedIndex_def)

text \<open>
  Claim C7, amended. Without regions the curve is empty exactly when the viewport has no
  pixels; the Speed Index is the first-paint estimate whenever that is not negative;
  and, for every list of regions, a total of 0 gives the empty curve.
\<close>

theorem no_regions_speed_index:
  "(CalculateVisualProgress w fp [] = [] \<longleftrightarrow> viewport_pixels w \<le> 0) \<and>
   (0 \<le> fp \<longrightarrow> CalculateSpeedIndex fp (CalculateVisualProgress w fp []) = fp) \<and>
   (snd (paint_buckets w fp rects) = 0 \<longrightarrow> CalculateVisualProgress w fp rects = [])"
proof -
  have a: "CalculateVisualProgress w fp [] = [] \<longleftrightarrow> viewport_pixels w \<le> 0"
  proof (cases "0 < viewport_pixels w")
    case True
    then have "paint_buckets w fp [] = (add_paint fp (viewport_pixels w * pageBackgroundWeight) [(0, 0)],
                 viewport_pixels w * pageBackgroundWeight)"
      by (simp add: paint_buckets_def add_background_def Let_def max_def)
    moreover have "viewport_pixels w * pageBackgroundWeight \<noteq> 0"
      using True by (simp add: pageBackgroundWeight_def)
    ultimately show ?thesis using True
      by (simp add: CalculateVisualProgress_def accumulate_Nil)
  next
    case False
    then show ?thesis
      by (simp add: CalculateVisualProgress_def paint_buckets_def add_background_def)
  qed
  have b: "CalculateSpeedIndex fp (CalculateVisualProgress w fp []) = fp" if "0 \<le> fp"
    using uniform_speed_index[of "[]" fp w] that by simp
  have c: "CalculateVisualProgress w fp rects = []" if "snd (paint_buckets w fp rects) = 0"
    using that by (cases "paint_buckets w fp rects") (simp add: CalculateVisualProgress_def)
  show ?thesis using a b c by blast
qed

theorem no_regions_speed_index_witness:
  "CalculateVisualProgress sample_window 50 [] \<noteq> [] \<and> \<not> viewport_pixels sample_window \<le> 0 \<and>
   (0::real) \<le> 50 \<and> CalculateSpeedIndex 50 (CalculateVisualProgress sample_window 50 []) = 50 \<and>
   snd (paint_buckets blank_window 50 []) = 0 \<and> CalculateVisualProgress blank_window 50 [] = [] \<and>
   viewport_pixels blank_window \<le> 0"
  using no_regions_speed_index[of sample_window 50 "[]"] no_regions_speed_index[of blank_window 50 "[]"]
  by (simp add: pixels_sample pixels_blank buckets_none_blank)

section \<open>The pipeline without a first-paint signal\<close>

text \<open>
  Claim C1, as stated, fails: without a native signal, without \<open>chrome.loadTimes\<close>,
  with a head without children and an empty list of resource records, the fallback
  leaves \<open>firstPaint = responseStart - navStart\<close>, and the result is a number.
\<close>

theorem RUMSpeedIndex_defined_without_signals: "RUMSpeedIndex no_match sample_window = Some 200"
proof -
  have g: "GetRects no_match sample_window =
     [\<lparr>url = ''http://a.example/i.png'', area = 200,
       rect = \<lparr>vr_top = 0, vr_left = 0, vr_bottom = 10, vr_right = 20, vr_area = 200\<rparr>, tm = None\<rparr>]"
    by (simp add: GetRects_def GetRects_step_def CheckElement_def GetElementViewportRect_def
        sample_window_def img_visible_def img_offscreen_def no_match_def viewportHeight_def
        viewportWidth_def or_else_def)
  have p: "performance sample_window =
             Some \<lparr>timing = \<lparr>navigationStart = 1000, responseStart = 1200, msFirstPaint = None\<rparr>,
                   resourceEntries = Some []\<rparr>"
    "chrome sample_window = None" "headElements sample_window = Some []"
    by (simp_all add: sample_window_def)
  have f: "GetFirstPaint \<lparr>navigationStart = 1000, responseStart = 1200, msFirstPaint = None\<rparr>
             None (Some []) [] = Inr 200"
    by (simp add: GetFirstPaint_def nativeFirstPaint_def chromeFirstPaint_def headFallback_def
        headURLs_of_def)
  have b: "paint_buckets sample_window 200 (GetRectTimings [] (GetRects no_match sample_window))
           = ([(0, 0), (200, 48180)], 48180)"
    by (simp add: g GetRectTimings_def timings_of_def paint_buckets_def add_background_def
        paint_time_def pageBackgroundWeight_def pixels_sample)
  show ?thesis
    by (simp add: RUMSpeedIndex_def p f CalculateVisualProgress_def b CalculateSpeedIndex_def)
qed

text \<open>
  Claim C1, amended. When \<open>window.performance\<close> and its resource entries exist, the
  document has a head element, the native branch and the vendor branch assign nothing,
  the head has no children and there are no resource records, \<open>GetFirstPaint\<close> returns
  with \<open>firstPaint = responseStart - navStart\<close> and the result of the pipeline is a
  defined number; it is \<open>responseStart - navStart\<close> whenever that is not negative.
\<close>

theorem RUMSpeedIndex_fallback_responseStart:
  assumes "performance w = Some perf" and "resourceEntries perf = Some []"
    and "headElements w = Some []"
    and "nativeFirstPaint (timing perf) = None" and "chromeFirstPaint (chrome w) None = None"
  shows "GetFirstPaint (timing perf) (chrome w) (headElements w) [] =
           Inr (responseStart (timing perf) - navigationStart (timing perf)) \<and>
         RUMSpeedIndex re w \<noteq> None \<and>
         (navigationStart (timing perf) \<le> responseStart (timing perf) \<longrightarrow>
            RUMSpeedIndex re w = Some (responseStart (timing perf) - navigationStart (timing perf)))"
proof -
  define fp where "fp = responseStart (timing perf) - navigationStart (timing perf)"
  have f: "GetFirstPaint (timing perf) (chrome w) (headElements w) [] = Inr fp"
    using assms by (simp add: GetFirstPaint_def headFallback_def headURLs_of_def fp_def)
  have u: "\<forall>r \<in> set (GetRectTimings [] (GetRects re w)). paint_time fp r = fp"
    using GetRectTimings_no_records by (auto simp: paint_time_def)
  have r: "RUMSpeedIndex re w = Some (CalculateSpeedIndex fp
              (CalculateVisualProgress w fp (GetRectTimings [] (GetRects re w))))"
    using assms(1,2) f by (simp add: RUMSpeedIndex_def Let_def)
  have "RUMSpeedIndex re w = Some fp" if "0 \<le> fp"
    using uniform_speed_index[OF u that, of w] r by simp
  then show ?thesis using f r unfolding fp_def by simp
qed

theorem RUMSpeedIndex_fallback_responseStart_witness:
  "GetFirstPaint \<lparr>navigationStart = 1000, responseStart = 1200, msFirstPaint = None\<rparr>
     None (Some []) [] = Inr 200 \<and>
   (1000::real) \<le> 1200 \<and>
   RUMSpeedIndex no_match (sample_window\<lparr>elements := []\<rparr>) = Some 200"
  using RUMSpeedIndex_fallback_responseStart[of "sample_window\<lparr>elements := []\<rparr>"
      "\<lparr>timing = \<lparr>navigationStart = 1000, responseStart = 1200, msFirstPaint = None\<rparr>, resourceEntries = Some []\<rparr>"
      no_match]
  by (simp add: sample_window_def nativeFirstPaint_def chromeFirstPaint_def)

text \<open>
  The result is \<open>undefined\<close> exactly when an exception is thrown: an interface is
  missing, or the fallback is reached in a document without a head element. So the same
  snapshot as above but without a head element gives \<open>undefined\<close>.
\<close>

lemma RUMSpeedIndex_undefined_iff:
  "RUMSpeedIndex re w = None \<longleftrightarrow>
     performance w = None \<or>
     (\<exists>perf. performance w = Some perf \<and>
        (resourceEntries perf = None \<or>
         (chromeFirstPaint (chrome w) (nativeFirstPaint (timing perf)) = None \<and>
          headElements w = None)))"
  by (auto simp: RUMSpeedIndex_def GetFirstPaint_def headFallback_def Let_def
      split: option.splits sum.splits)

lemma RUMSpeedIndex_without_head:
  "RUMSpeedIndex no_match (sample_window\<lparr>headElements := None\<rparr>) = None"
  by (simp add: RUMSpeedIndex_undefined_iff sample_window_def nativeFirstPaint_def
      chromeFirstPaint_def)

end
